theory Spec2Isabelle
  imports Main
begin

section \<open>Hotkeys: registry, key resolution and dispatch\<close>

text \<open>
  A shallow embedding of \<^verbatim>\<open>src/features/hotkey.tsx\<close>: the factory \<^verbatim>\<open>createHotkey\<close>,
  the two layer handlers that keep the dictionary \<^verbatim>\<open>hotkeys\<close> up to date, and the
  key-down handler \<^verbatim>\<open>document.onkeydown\<close>.

  Modelling conventions.
  \<^item> A JavaScript string is a \<open>string\<close>: the list of its characters in an encoding
    that gives every ASCII character one \<open>char\<close> and turns the concatenation of strings
    into the concatenation of lists. The handler only concatenates and compares strings
    and passes them to \<^verbatim>\<open>toUpperCase\<close> and \<^verbatim>\<open>toLowerCase\<close>. These two are functions of
    the host language (full Unicode case conversion), not of the repository: they are
    parameters of the model, the record \<open>host\<close>, and every statement holds for whatever
    functions the host provides. What a statement needs to know of them is among its
    hypotheses.
  \<^item> The dictionary \<^verbatim>\<open>hotkeys\<close> is a map from property names to values that may be
    \<^verbatim>\<open>undefined\<close>: \<open>None\<close> is a name that is not a property of the object,
    \<open>Some None\<close> a property whose value is \<^verbatim>\<open>undefined\<close>, \<open>Some (Some h)\<close> a property
    holding the hotkey \<open>h\<close>. Only own properties are modelled: the names an object
    inherits from its prototype are not key values of keyboard events.
  \<^item> The reactive state that computed values and the win gate read is a record \<open>game\<close>;
    a deferred value is a function of it, evaluated by \<open>unref\<close> at the state of the moment.
  \<^item> The handlers are state transformers. What the key-down handler does to the outside
    (\<^verbatim>\<open>e.preventDefault()\<close>, \<^verbatim>\<open>hotkey.onPress()\<close>) is appended to the field \<open>calls\<close>, in
    the order of the calls; the callback itself is an opaque value of type \<open>'a\<close>.
\<close>

subsection \<open>Strings and arrays of the host language\<close>

text \<open>
  \<^verbatim>\<open>String.prototype.toUpperCase\<close> and \<^verbatim>\<open>String.prototype.toLowerCase\<close>, as the host
  provides them. The model does not fix them: the handler takes the host as a parameter.
\<close>

record host =
  toUpperCase :: "string \<Rightarrow> string"
  toLowerCase :: "string \<Rightarrow> string"

text \<open>The decimal numeral of a number, as string concatenation with a number produces it.\<close>

fun digits :: "nat \<Rightarrow> string" where
  "digits n = (if n < 10 then [char_of (48 + n)] else digits (n div 10) @ [char_of (48 + n mod 10)])"

declare digits.simps [simp del]

definition numberToString :: "int \<Rightarrow> string" where
  "numberToString i = (if i < 0 then CHR ''-'' # digits (nat (- i)) else digits (nat i))"

text \<open>\<^verbatim>\<open>Array.prototype.includes\<close>, \<^verbatim>\<open>indexOf\<close> (\<open>-1\<close> when absent), \<^verbatim>\<open>push\<close>, \<^verbatim>\<open>splice\<close> (removal
  only) and \<^verbatim>\<open>find\<close> (\<open>None\<close> for \<^verbatim>\<open>undefined\<close>).\<close>

definition includes_js :: "'a list \<Rightarrow> 'a \<Rightarrow> bool" where
  "includes_js xs x = (x \<in> set xs)"

fun indexOf :: "'a list \<Rightarrow> 'a \<Rightarrow> int" where
  "indexOf [] x = - 1"
| "indexOf (y # ys) x =
     (if y = x then 0 else (let i = indexOf ys x in if i < 0 then - 1 else i + 1))"

definition push :: "'a list \<Rightarrow> 'a \<Rightarrow> 'a list" where
  "push xs x = xs @ [x]"

definition splice :: "'a list \<Rightarrow> nat \<Rightarrow> nat \<Rightarrow> 'a list" where
  "splice xs start deleteCount = take start xs @ drop (start + deleteCount) xs"

fun find_js :: "'a list \<Rightarrow> ('a \<Rightarrow> bool) \<Rightarrow> 'a option" where
  "find_js [] p = None"
| "find_js (x # xs) p = (if p x then Some x else find_js xs p)"

subsection \<open>Computable values\<close>

record 'w game =
  hasWon :: bool
  keepGoing :: bool
  world :: 'w

datatype ('g, 'v) Computable = Plain 'v | Deferred "'g \<Rightarrow> 'v"

datatype ('g, 'v) ProcessedComputable = Value 'v | Wrapper "'g \<Rightarrow> 'v"

text \<open>
  Modelled from the spec: \<^verbatim>\<open>processComputable\<close> (util/computed), \<^verbatim>\<open>setDefault\<close>
  (features/feature) and \<^verbatim>\<open>unref\<close> (vue) are not part of the sources at hand. The first
  replaces a field that is a deferred computation by a wrapper that exposes the current
  evaluated value on demand and leaves a plain value (or an absent field) alone; the
  second sets a field to a literal default only if it is absent; the third reads a
  processed field at the current state.
\<close>

fun processComputable :: "('g, 'v) Computable \<Rightarrow> ('g, 'v) ProcessedComputable" where
  "processComputable (Plain v) = Value v"
| "processComputable (Deferred f) = Wrapper f"

fun setDefault :: "('g, 'v) ProcessedComputable option \<Rightarrow> 'v \<Rightarrow> ('g, 'v) ProcessedComputable" where
  "setDefault None d = Value d"
| "setDefault (Some p) d = p"

fun unref :: "'g \<Rightarrow> ('g, 'v) ProcessedComputable \<Rightarrow> 'v" where
  "unref g (Value v) = v"
| "unref g (Wrapper f) = f g"

subsection \<open>Hotkeys and their factory\<close>

datatype featureType = HotkeyType | OtherType

record ('w, 'a) HotkeyOptions =
  enabled :: "('w game, bool) Computable option"
  key :: string
  description :: "('w game, string) Computable"
  onPress :: 'a

record ('w, 'a) GenericHotkey =
  type :: featureType
  enabled :: "('w game, bool) ProcessedComputable"
  key :: string
  description :: "('w game, string) ProcessedComputable"
  onPress :: 'a

text \<open>
  \<^verbatim>\<open>createHotkey\<close> takes the options the options function returns. The lazy proxy
  around it only delays the construction to the first access of a field; it does
  not change the value constructed.
\<close>

definition createHotkey :: "('w, 'a) HotkeyOptions \<Rightarrow> ('w, 'a) GenericHotkey" where
  "createHotkey options =
     \<lparr> type = HotkeyType,
       enabled = setDefault (map_option processComputable (HotkeyOptions.enabled options)) True,
       key = HotkeyOptions.key options,
       description = processComputable (HotkeyOptions.description options),
       onPress = HotkeyOptions.onPress options \<rparr>"

subsection \<open>The registry and the layer handlers\<close>

type_synonym ('w, 'a) registry = "string \<rightharpoonup> ('w, 'a) GenericHotkey option"

datatype 'a call = PreventDefault | OnPress 'a

record ('w, 'a) state =
  hotkeys :: "('w, 'a) registry"
  game :: "'w game"
  calls :: "'a call list"

text \<open>
  Modelled from the spec: \<^verbatim>\<open>findFeatures\<close> (features/feature) is not part of the sources at
  hand. A layer is the list of its features, in the order of enumeration; a feature that
  is not a hotkey carries nothing of interest here. \<open>findFeatures layer t\<close> enumerates the
  features of the layer that carry the type tag \<open>t\<close>.
\<close>

datatype ('w, 'a) feature = HotkeyFeature "('w, 'a) GenericHotkey" | OtherFeature

type_synonym ('w, 'a) layer = "('w, 'a) feature list"

fun findFeatures :: "('w, 'a) layer \<Rightarrow> featureType \<Rightarrow> ('w, 'a) GenericHotkey list" where
  "findFeatures [] t = []"
| "findFeatures (HotkeyFeature h # fs) t =
     (if type h = t then h # findFeatures fs t else findFeatures fs t)"
| "findFeatures (OtherFeature # fs) t = findFeatures fs t"

text \<open>\<^verbatim>\<open>globalBus.on("addLayer", ...)\<close> and \<^verbatim>\<open>globalBus.on("removeLayer", ...)\<close>.\<close>

definition addLayer :: "('w, 'a) layer \<Rightarrow> ('w, 'a) state \<Rightarrow> ('w, 'a) state" where
  "addLayer layer s =
     s\<lparr>hotkeys := fold (\<lambda>hotkey reg. reg(key hotkey \<mapsto> Some hotkey))
                        (findFeatures layer HotkeyType) (hotkeys s)\<rparr>"

definition removeLayer :: "('w, 'a) layer \<Rightarrow> ('w, 'a) state \<Rightarrow> ('w, 'a) state" where
  "removeLayer layer s =
     s\<lparr>hotkeys := fold (\<lambda>hotkey reg. reg(key hotkey \<mapsto> None))
                        (findFeatures layer HotkeyType) (hotkeys s)\<rparr>"

subsection \<open>The key-down handler\<close>

text \<open>\<open>target\<close> is the tag name of the event's target, \<open>None\<close> when there is no target.\<close>

record KeyboardEvent =
  target :: "string option"
  key :: string
  shiftKey :: bool
  ctrlKey :: bool

definition uppercaseNumbers :: "string list" where
  "uppercaseNumbers = ['')'', ''!'', ''@'', ''#'', ''$'', ''%'', ''^'', ''&'', ''*'', ''('']"

text \<open>The value of the local \<^verbatim>\<open>keysToCheck\<close> when the lookup starts.\<close>

definition keysToCheck :: "host \<Rightarrow> KeyboardEvent \<Rightarrow> string list" where
  "keysToCheck host e =
     (let keysToCheck = [key e] in
      if shiftKey e \<and> ctrlKey e then
        (let keysToCheck = splice keysToCheck 0 1;
             keysToCheck = push keysToCheck (''ctrl+shift+'' @ toUpperCase host (key e));
             keysToCheck = push keysToCheck (''shift+ctrl+'' @ toUpperCase host (key e)) in
         if includes_js uppercaseNumbers (key e) then
           (let keysToCheck = push keysToCheck
                  (''ctrl+shift+'' @ numberToString (indexOf uppercaseNumbers (key e))) in
            push keysToCheck (''shift+ctrl+'' @ numberToString (indexOf uppercaseNumbers (key e))))
         else
           (let keysToCheck = push keysToCheck (''ctrl+shift+'' @ toLowerCase host (key e)) in
            push keysToCheck (''shift+ctrl+'' @ toLowerCase host (key e))))
      else if includes_js uppercaseNumbers (key e) then
        (let keysToCheck = push keysToCheck (''shift+'' @ key e) in
         push keysToCheck (''shift+'' @ numberToString (indexOf uppercaseNumbers (key e))))
      else if shiftKey e then
        (let keysToCheck = push keysToCheck (''shift+'' @ toUpperCase host (key e)) in
         push keysToCheck (''shift+'' @ toLowerCase host (key e)))
      else if ctrlKey e then
        (let keysToCheck = splice keysToCheck 0 1 in
         push keysToCheck (''ctrl+'' @ key e))
      else keysToCheck)"

text \<open>
  The value of the local \<^verbatim>\<open>hotkey\<close>: the entry of the dictionary under the first candidate
  that is a property name of it (\<^verbatim>\<open>key in hotkeys\<close>), under the empty string when there
  is none. A name that is not a property reads as \<^verbatim>\<open>undefined\<close>.
\<close>

definition lookupHotkey :: "('w, 'a) registry \<Rightarrow> string list \<Rightarrow> ('w, 'a) GenericHotkey option" where
  "lookupHotkey reg keys =
     (case reg (case find_js keys (\<lambda>k. reg k \<noteq> None) of Some k \<Rightarrow> k | None \<Rightarrow> '''') of
        Some v \<Rightarrow> v
      | None \<Rightarrow> None)"

text \<open>
  \<^verbatim>\<open>document.onkeydown\<close>: the two gates, the candidates, the lookup, and the two calls
  when the entry found is a hotkey whose \<^verbatim>\<open>enabled\<close> reads true at the state of the press.
\<close>

definition onkeydown ::
    "host \<Rightarrow> KeyboardEvent \<Rightarrow> ('w, 'a) state \<Rightarrow> ('w, 'a) state" where
  "onkeydown host e s =
     (if target e = Some ''INPUT'' then s
      else if hasWon (game s) \<and> \<not> keepGoing (game s) then s
      else
        (case lookupHotkey (hotkeys s) (keysToCheck host e) of
           Some hotkey \<Rightarrow>
             if unref (game s) (enabled hotkey)
             then s\<lparr>calls := push (push (calls s) PreventDefault) (OnPress (onPress hotkey))\<rparr>
             else s
         | None \<Rightarrow> s))"

subsection \<open>Histories of layer notifications\<close>

text \<open>
  The dictionary starts empty (\<^verbatim>\<open>shallowReactive({})\<close>) and is written by the two layer
  handlers only, one notification of the bus at a time.
\<close>

definition initialState :: "'w game \<Rightarrow> ('w, 'a) state" where
  "initialState g = \<lparr> hotkeys = Map.empty, game = g, calls = [] \<rparr>"

datatype ('w, 'a) notification = AddLayer "('w, 'a) layer" | RemoveLayer "('w, 'a) layer"

fun emit :: "('w, 'a) notification \<Rightarrow> ('w, 'a) state \<Rightarrow> ('w, 'a) state" where
  "emit (AddLayer layer) s = addLayer layer s"
| "emit (RemoveLayer layer) s = removeLayer layer s"

definition emitAll :: "('w, 'a) notification list \<Rightarrow> ('w, 'a) state \<Rightarrow> ('w, 'a) state" where
  "emitAll ns s = fold emit ns s"

text \<open>
  The reading of ``the definition most recently registered for a key string'' that the
  registry is compared with: the registrations of a history are the hotkeys of its
  ``layer added'' notifications in the order in which they were stored, and the most
  recent one for a key is the last of them with that key.
\<close>

fun registrations :: "('w, 'a) notification list \<Rightarrow> ('w, 'a) GenericHotkey list" where
  "registrations [] = []"
| "registrations (AddLayer layer # ns) = findFeatures layer HotkeyType @ registrations ns"
| "registrations (RemoveLayer layer # ns) = registrations ns"

definition hasKey :: "string \<Rightarrow> ('w, 'a) GenericHotkey \<Rightarrow> bool" where
  "hasKey k h = (GenericHotkey.key h = k)"

definition mostRecentlyRegistered ::
    "string \<Rightarrow> ('w, 'a) notification list \<Rightarrow> ('w, 'a) GenericHotkey option" where
  "mostRecentlyRegistered k ns = find_js (rev (registrations ns)) (hasKey k)"

text \<open>
  The reading of ``last write wins'' that the registry is compared with. A notification
  writes, in the order of enumeration, one value per hotkey of its layer under the key
  of that hotkey: the hotkey itself when the layer is added, nothing (\<^verbatim>\<open>undefined\<close>)
  when it is removed. What a history has last written under a key is the value of the
  last of its writes under that key; a key it has never written is absent.
\<close>

fun writes :: "('w, 'a) notification \<Rightarrow> (string \<times> ('w, 'a) GenericHotkey option) list" where
  "writes (AddLayer layer) =
     map (\<lambda>hotkey. (GenericHotkey.key hotkey, Some hotkey)) (findFeatures layer HotkeyType)"
| "writes (RemoveLayer layer) =
     map (\<lambda>hotkey. (GenericHotkey.key hotkey, None)) (findFeatures layer HotkeyType)"

definition lastWritten ::
    "string \<Rightarrow> ('w, 'a) notification list \<Rightarrow> ('w, 'a) GenericHotkey option option" where
  "lastWritten k ns = map_of (rev (concat (map writes ns))) k"

subsection \<open>Concrete values for the examples\<close>

text \<open>
  A host for the examples. On strings of ASCII characters its two functions compute what
  the JavaScript functions compute; the examples use no other strings.
\<close>

definition asciiUpperChar :: "char \<Rightarrow> char" where
  "asciiUpperChar c =
     (let n = (of_char c :: nat) in if 97 \<le> n \<and> n \<le> 122 then char_of (n - 32) else c)"

definition asciiLowerChar :: "char \<Rightarrow> char" where
  "asciiLowerChar c =
     (let n = (of_char c :: nat) in if 65 \<le> n \<and> n \<le> 90 then char_of (n + 32) else c)"

definition asciiHost :: host where
  "asciiHost = \<lparr> toUpperCase = map asciiUpperChar, toLowerCase = map asciiLowerChar \<rparr>"

definition playing :: "bool game" where
  "playing = \<lparr> hasWon = False, keepGoing = False, world = True \<rparr>"

definition press :: "string \<Rightarrow> bool \<Rightarrow> bool \<Rightarrow> KeyboardEvent" where
  "press k shift ctrl = \<lparr> target = None, key = k, shiftKey = shift, ctrlKey = ctrl \<rparr>"

definition hotkeyOn :: "string \<Rightarrow> nat \<Rightarrow> (bool, nat) GenericHotkey" where
  "hotkeyOn k a =
     createHotkey \<lparr> HotkeyOptions.enabled = None, HotkeyOptions.key = k,
                    HotkeyOptions.description = Plain ''a hotkey'', HotkeyOptions.onPress = a \<rparr>"

definition layerOf :: "(bool, nat) GenericHotkey \<Rightarrow> (bool, nat) layer" where
  "layerOf h = [OtherFeature, HotkeyFeature h]"

text \<open>A game that is won and not continued, and one whose \<open>world\<close> flag is off.\<close>

definition wonGame :: "bool game" where
  "wonGame = \<lparr> hasWon = True, keepGoing = False, world = True \<rparr>"

definition flagOff :: "bool game" where
  "flagOff = \<lparr> hasWon = False, keepGoing = False, world = False \<rparr>"

text \<open>A hotkey whose \<^verbatim>\<open>enabled\<close> option is a deferred computation: it reads the \<open>world\<close> flag.\<close>

definition hotkeyWhenFlag :: "string \<Rightarrow> nat \<Rightarrow> (bool, nat) GenericHotkey" where
  "hotkeyWhenFlag k a =
     createHotkey \<lparr> HotkeyOptions.enabled = Some (Deferred world), HotkeyOptions.key = k,
                    HotkeyOptions.description = Plain ''a hotkey'', HotkeyOptions.onPress = a \<rparr>"

text \<open>A hotkey whose \<^verbatim>\<open>enabled\<close> option is the plain value \<^verbatim>\<open>false\<close>.\<close>

definition hotkeyOff :: "string \<Rightarrow> nat \<Rightarrow> (bool, nat) GenericHotkey" where
  "hotkeyOff k a =
     createHotkey \<lparr> HotkeyOptions.enabled = Some (Plain False), HotkeyOptions.key = k,
                    HotkeyOptions.description = Plain ''a hotkey'', HotkeyOptions.onPress = a \<rparr>"

section \<open>Properties\<close>

subsection \<open>The candidates of a key press\<close>

lemma digit_table:
  "list_all (\<lambda>i. indexOf uppercaseNumbers (uppercaseNumbers ! i) = int i \<and>
                  numberToString (int i) = [''0123456789'' ! i]) [0..<10]"
  by code_simp

lemma digit_of_symbol:
  assumes "i < 10"
  shows "numberToString (indexOf uppercaseNumbers (uppercaseNumbers ! i)) = [''0123456789'' ! i]"
proof -
  from assms have "i \<in> set [0..<10]" by simp
  with digit_table show ?thesis unfolding list_all_iff by metis
qed

lemma symbol_table:
  "list_all (\<lambda>i. includes_js uppercaseNumbers (uppercaseNumbers ! i)) [0..<10]"
  by code_simp

lemma symbol_in_table:
  assumes "i < 10"
  shows "includes_js uppercaseNumbers (uppercaseNumbers ! i)"
proof -
  from assms have "i \<in> set [0..<10]" by simp
  with symbol_table show ?thesis unfolding list_all_iff by metis
qed

lemma keysToCheck_both:
  "shiftKey e \<Longrightarrow> ctrlKey e \<Longrightarrow>
   keysToCheck host e =
     [''ctrl+shift+'' @ toUpperCase host (key e), ''shift+ctrl+'' @ toUpperCase host (key e)] @
     (if includes_js uppercaseNumbers (key e)
      then [''ctrl+shift+'' @ numberToString (indexOf uppercaseNumbers (key e)),
            ''shift+ctrl+'' @ numberToString (indexOf uppercaseNumbers (key e))]
      else [''ctrl+shift+'' @ toLowerCase host (key e), ''shift+ctrl+'' @ toLowerCase host (key e)])"
  by (auto simp add: keysToCheck_def push_def splice_def Let_def)

lemma keysToCheck_symbol:
  "\<not> (shiftKey e \<and> ctrlKey e) \<Longrightarrow> includes_js uppercaseNumbers (key e) \<Longrightarrow>
   keysToCheck host e =
     [key e, ''shift+'' @ key e, ''shift+'' @ numberToString (indexOf uppercaseNumbers (key e))]"
  by (auto simp add: keysToCheck_def push_def splice_def Let_def)

lemma keysToCheck_shift:
  "shiftKey e \<Longrightarrow> \<not> ctrlKey e \<Longrightarrow> \<not> includes_js uppercaseNumbers (key e) \<Longrightarrow>
   keysToCheck host e = [key e, ''shift+'' @ toUpperCase host (key e), ''shift+'' @ toLowerCase host (key e)]"
  by (auto simp add: keysToCheck_def push_def splice_def Let_def)

lemma symbol_length: "includes_js uppercaseNumbers k \<Longrightarrow> length k = 1"
  by (auto simp: includes_js_def uppercaseNumbers_def)

text \<open>
  Claim C2. With shift and ctrl both held the candidates are, in order, \<open>ctrl+shift+\<close>
  and \<open>shift+ctrl+\<close> before the upper-case key, then the same two prefixes before the digit
  of the key when the key is the \<open>i\<close>-th of the ten shifted-digit symbols, before the
  lower-case key otherwise. The key as delivered is not among them: for a symbol because
  every candidate is longer, for any other key because every candidate has two plus
  signs more than the key, case conversion neither adding nor removing a plus sign.
  For the key \<open>k\<close>, which the host turns into \<open>K\<close> and back, the candidates are
  \<open>ctrl+shift+K\<close>, \<open>shift+ctrl+K\<close>, \<open>ctrl+shift+k\<close>, \<open>shift+ctrl+k\<close>.
\<close>

theorem resolver_shift_ctrl:
  assumes "shiftKey e" and "ctrlKey e"
  shows
   "(\<forall>i<10. key e = ['')'', ''!'', ''@'', ''#'', ''$'', ''%'', ''^'', ''&'', ''*'', ''(''] ! i \<longrightarrow>
       keysToCheck host e =
         [''ctrl+shift+'' @ toUpperCase host (key e), ''shift+ctrl+'' @ toUpperCase host (key e),
          ''ctrl+shift+'' @ [''0123456789'' ! i], ''shift+ctrl+'' @ [''0123456789'' ! i]] \<and>
       key e \<notin> set (keysToCheck host e)) \<and>
    (key e \<notin> set ['')'', ''!'', ''@'', ''#'', ''$'', ''%'', ''^'', ''&'', ''*'', ''(''] \<longrightarrow>
       keysToCheck host e =
         [''ctrl+shift+'' @ toUpperCase host (key e), ''shift+ctrl+'' @ toUpperCase host (key e),
          ''ctrl+shift+'' @ toLowerCase host (key e), ''shift+ctrl+'' @ toLowerCase host (key e)] \<and>
       (count_list (toUpperCase host (key e)) CHR ''+'' = count_list (key e) CHR ''+'' \<and>
        count_list (toLowerCase host (key e)) CHR ''+'' = count_list (key e) CHR ''+'' \<longrightarrow>
          key e \<notin> set (keysToCheck host e))) \<and>
    (key e = ''k'' \<and> toUpperCase host ''k'' = ''K'' \<and> toLowerCase host ''k'' = ''k'' \<longrightarrow>
       keysToCheck host e = [''ctrl+shift+K'', ''shift+ctrl+K'', ''ctrl+shift+k'', ''shift+ctrl+k''])"
proof (intro conjI allI impI)
  fix i :: nat
  assume i: "i < 10"
    and k: "key e = ['')'', ''!'', ''@'', ''#'', ''$'', ''%'', ''^'', ''&'', ''*'', ''(''] ! i"
  from k have k': "key e = uppercaseNumbers ! i" by (simp add: uppercaseNumbers_def)
  with symbol_in_table [OF i] have sym: "includes_js uppercaseNumbers (key e)" by simp
  show "keysToCheck host e =
         [''ctrl+shift+'' @ toUpperCase host (key e), ''shift+ctrl+'' @ toUpperCase host (key e),
          ''ctrl+shift+'' @ [''0123456789'' ! i], ''shift+ctrl+'' @ [''0123456789'' ! i]]"
    using keysToCheck_both [OF assms, of host] symbol_in_table [OF i] digit_of_symbol [OF i]
    unfolding k' by simp
  from sym have "length (key e) = 1" by (rule symbol_length)
  moreover have "length c > 1" if "c \<in> set (keysToCheck host e)" for c
    using that sym keysToCheck_both [OF assms, of host] by auto
  ultimately show "key e \<notin> set (keysToCheck host e)" by force
next
  assume "key e \<notin> set ['')'', ''!'', ''@'', ''#'', ''$'', ''%'', ''^'', ''&'', ''*'', ''('']"
  then have "\<not> includes_js uppercaseNumbers (key e)"
    by (simp add: includes_js_def uppercaseNumbers_def)
  then show "keysToCheck host e =
         [''ctrl+shift+'' @ toUpperCase host (key e), ''shift+ctrl+'' @ toUpperCase host (key e),
          ''ctrl+shift+'' @ toLowerCase host (key e), ''shift+ctrl+'' @ toLowerCase host (key e)]"
    using keysToCheck_both [OF assms, of host] by simp
next
  assume other: "key e \<notin> set ['')'', ''!'', ''@'', ''#'', ''$'', ''%'', ''^'', ''&'', ''*'', ''('']"
    and plus: "count_list (toUpperCase host (key e)) CHR ''+'' = count_list (key e) CHR ''+'' \<and>
               count_list (toLowerCase host (key e)) CHR ''+'' = count_list (key e) CHR ''+''"
  from other have "\<not> includes_js uppercaseNumbers (key e)"
    by (simp add: includes_js_def uppercaseNumbers_def)
  with keysToCheck_both [OF assms, of host]
  have ks: "keysToCheck host e =
         [''ctrl+shift+'' @ toUpperCase host (key e), ''shift+ctrl+'' @ toUpperCase host (key e),
          ''ctrl+shift+'' @ toLowerCase host (key e), ''shift+ctrl+'' @ toLowerCase host (key e)]"
    by simp
  have "count_list c CHR ''+'' = count_list (key e) CHR ''+'' + 2"
    if "c \<in> set (keysToCheck host e)" for c
    using that plus unfolding ks by auto
  then show "key e \<notin> set (keysToCheck host e)" by force
next
  assume k: "key e = ''k'' \<and> toUpperCase host ''k'' = ''K'' \<and> toLowerCase host ''k'' = ''k''"
  have "\<not> includes_js uppercaseNumbers ''k''" by code_simp
  with k show "keysToCheck host e =
      [''ctrl+shift+K'', ''shift+ctrl+K'', ''ctrl+shift+k'', ''shift+ctrl+k'']"
    using keysToCheck_both [OF assms, of host] by simp
qed

theorem resolver_shift_ctrl_witness:
  "keysToCheck asciiHost \<lparr>target = None, key = ''k'', shiftKey = True, ctrlKey = True\<rparr> =
     [''ctrl+shift+K'', ''shift+ctrl+K'', ''ctrl+shift+k'', ''shift+ctrl+k''] \<and>
   ''k'' \<notin> set (keysToCheck asciiHost \<lparr>target = None, key = ''k'', shiftKey = True, ctrlKey = True\<rparr>) \<and>
   keysToCheck asciiHost \<lparr>target = None, key = ''K'', shiftKey = True, ctrlKey = True\<rparr> =
     [''ctrl+shift+K'', ''shift+ctrl+K'', ''ctrl+shift+k'', ''shift+ctrl+k''] \<and>
   ''K'' \<notin> set (keysToCheck asciiHost \<lparr>target = None, key = ''K'', shiftKey = True, ctrlKey = True\<rparr>) \<and>
   keysToCheck asciiHost \<lparr>target = None, key = ''@'', shiftKey = True, ctrlKey = True\<rparr> =
     [''ctrl+shift+@'', ''shift+ctrl+@'', ''ctrl+shift+2'', ''shift+ctrl+2''] \<and>
   ''@'' \<notin> set (keysToCheck asciiHost \<lparr>target = None, key = ''@'', shiftKey = True, ctrlKey = True\<rparr>)"
proof -
  let ?k = "\<lparr>target = None, key = ''k'', shiftKey = True, ctrlKey = True\<rparr>"
  let ?K = "\<lparr>target = None, key = ''K'', shiftKey = True, ctrlKey = True\<rparr>"
  let ?a = "\<lparr>target = None, key = ''@'', shiftKey = True, ctrlKey = True\<rparr>"
  let ?symbols = "['')'', ''!'', ''@'', ''#'', ''$'', ''%'', ''^'', ''&'', ''*'', ''('']"
  have k: "shiftKey ?k" "ctrlKey ?k" and K: "shiftKey ?K" "ctrlKey ?K"
    and a: "shiftKey ?a" "ctrlKey ?a" by simp_all
  note rk = resolver_shift_ctrl [OF k, of asciiHost]
  note rK = resolver_shift_ctrl [OF K, of asciiHost]
  note ra = resolver_shift_ctrl [OF a, of asciiHost]
  have host_k: "toUpperCase asciiHost ''k'' = ''K''" "toLowerCase asciiHost ''k'' = ''k''"
    and host_K: "toUpperCase asciiHost ''K'' = ''K''" "toLowerCase asciiHost ''K'' = ''k''"
    and host_a: "toUpperCase asciiHost ''@'' = ''@''"
    by code_simp+
  have other: "''k'' \<notin> set ?symbols" "''K'' \<notin> set ?symbols" by simp_all
  have 1: "keysToCheck asciiHost ?k =
      [''ctrl+shift+K'', ''shift+ctrl+K'', ''ctrl+shift+k'', ''shift+ctrl+k'']"
    using rk [THEN conjunct2, THEN conjunct2] host_k by simp
  have 2: "''k'' \<notin> set (keysToCheck asciiHost ?k)"
    using rk [THEN conjunct2, THEN conjunct1] other host_k by simp
  have 3: "keysToCheck asciiHost ?K =
      [''ctrl+shift+K'', ''shift+ctrl+K'', ''ctrl+shift+k'', ''shift+ctrl+k'']"
    using rK [THEN conjunct2, THEN conjunct1] other host_K by simp
  have 4: "''K'' \<notin> set (keysToCheck asciiHost ?K)"
    using rK [THEN conjunct2, THEN conjunct1] other host_K by simp
  have 5: "keysToCheck asciiHost ?a =
      [''ctrl+shift+@'', ''shift+ctrl+@'', ''ctrl+shift+2'', ''shift+ctrl+2'']"
    and 6: "''@'' \<notin> set (keysToCheck asciiHost ?a)"
    using ra [THEN conjunct1, rule_format, of 2] by (simp_all add: host_a)
  from 1 2 3 4 5 6 show ?thesis by blast
qed

text \<open>
  Claim C3. When the key is the \<open>i\<close>-th of the ten shifted-digit symbols and shift and
  ctrl are not both held, whatever the two flags are otherwise, the candidates are the
  symbol, \<open>shift+\<close> before the symbol and \<open>shift+\<close> before the digit \<open>i\<close>, in this order.
\<close>

theorem resolver_shifted_digit_symbol:
  assumes "\<not> (shiftKey e \<and> ctrlKey e)" and "i < 10"
    and "key e = ['')'', ''!'', ''@'', ''#'', ''$'', ''%'', ''^'', ''&'', ''*'', ''(''] ! i"
  shows "keysToCheck host e = [key e, ''shift+'' @ key e, ''shift+'' @ [''0123456789'' ! i]]"
proof -
  from assms(3) have k: "key e = uppercaseNumbers ! i"
    by (simp add: uppercaseNumbers_def)
  with symbol_in_table [OF assms(2)] have "includes_js uppercaseNumbers (key e)"
    by simp
  from keysToCheck_symbol [OF assms(1) this] digit_of_symbol [OF assms(2)] k
  show ?thesis by simp
qed

theorem resolver_shifted_digit_symbol_witness:
  "\<not> (shiftKey \<lparr>target = None, key = ''!'', shiftKey = True, ctrlKey = False\<rparr> \<and>
       ctrlKey \<lparr>target = None, key = ''!'', shiftKey = True, ctrlKey = False\<rparr>) \<and>
   (1::nat) < 10 \<and>
   keysToCheck asciiHost \<lparr>target = None, key = ''!'', shiftKey = True, ctrlKey = False\<rparr> =
     [''!'', ''shift+!'', ''shift+1''] \<and>
   keysToCheck asciiHost \<lparr>target = None, key = ''!'', shiftKey = False, ctrlKey = True\<rparr> =
     [''!'', ''shift+!'', ''shift+1''] \<and>
   keysToCheck asciiHost \<lparr>target = None, key = ''!'', shiftKey = False, ctrlKey = False\<rparr> =
     [''!'', ''shift+!'', ''shift+1'']"
  using
    resolver_shifted_digit_symbol
      [of "\<lparr>target = None, key = ''!'', shiftKey = True, ctrlKey = False\<rparr>" 1]
    resolver_shifted_digit_symbol
      [of "\<lparr>target = None, key = ''!'', shiftKey = False, ctrlKey = True\<rparr>" 1]
    resolver_shifted_digit_symbol
      [of "\<lparr>target = None, key = ''!'', shiftKey = False, ctrlKey = False\<rparr>" 1]
  by simp

text \<open>
  Claim C4. With shift held, ctrl not held and a key that is none of the ten
  shifted-digit symbols, the candidates are the key as delivered, \<open>shift+\<close> before the
  upper-case key and \<open>shift+\<close> before the lower-case key, in this order.
\<close>

theorem resolver_shift_only:
  assumes "shiftKey e" and "\<not> ctrlKey e"
    and "key e \<notin> set ['')'', ''!'', ''@'', ''#'', ''$'', ''%'', ''^'', ''&'', ''*'', ''('']"
  shows "keysToCheck host e = [key e, ''shift+'' @ toUpperCase host (key e), ''shift+'' @ toLowerCase host (key e)]"
proof -
  from assms(3) have "\<not> includes_js uppercaseNumbers (key e)"
    by (simp add: includes_js_def uppercaseNumbers_def)
  with assms(1,2) show ?thesis by (rule keysToCheck_shift)
qed

theorem resolver_shift_only_witness:
  "shiftKey \<lparr>target = None, key = ''A'', shiftKey = True, ctrlKey = False\<rparr> \<and>
   \<not> ctrlKey \<lparr>target = None, key = ''A'', shiftKey = True, ctrlKey = False\<rparr> \<and>
   ''A'' \<notin> set ['')'', ''!'', ''@'', ''#'', ''$'', ''%'', ''^'', ''&'', ''*'', ''(''] \<and>
   keysToCheck asciiHost \<lparr>target = None, key = ''A'', shiftKey = True, ctrlKey = False\<rparr> =
     [''A'', ''shift+A'', ''shift+a''] \<and>
   keysToCheck asciiHost \<lparr>target = None, key = ''a'', shiftKey = True, ctrlKey = False\<rparr> =
     [''a'', ''shift+A'', ''shift+a''] \<and>
   keysToCheck asciiHost \<lparr>target = None, key = ''Enter'', shiftKey = True, ctrlKey = False\<rparr> =
     [''Enter'', ''shift+ENTER'', ''shift+enter'']"
proof -
  let ?A = "\<lparr>target = None, key = ''A'', shiftKey = True, ctrlKey = False\<rparr>"
  let ?a = "\<lparr>target = None, key = ''a'', shiftKey = True, ctrlKey = False\<rparr>"
  let ?n = "\<lparr>target = None, key = ''Enter'', shiftKey = True, ctrlKey = False\<rparr>"
  let ?symbols = "['')'', ''!'', ''@'', ''#'', ''$'', ''%'', ''^'', ''&'', ''*'', ''('']"
  have A: "shiftKey ?A" "\<not> ctrlKey ?A" "key ?A \<notin> set ?symbols"
    and a: "shiftKey ?a" "\<not> ctrlKey ?a" "key ?a \<notin> set ?symbols"
    and n: "shiftKey ?n" "\<not> ctrlKey ?n" "key ?n \<notin> set ?symbols"
    by simp_all
  have c: "toUpperCase asciiHost ''A'' = ''A''" "toLowerCase asciiHost ''A'' = ''a''"
    "toUpperCase asciiHost ''a'' = ''A''" "toLowerCase asciiHost ''a'' = ''a''"
    "toUpperCase asciiHost ''Enter'' = ''ENTER''" "toLowerCase asciiHost ''Enter'' = ''enter''"
    by code_simp+
  from resolver_shift_only [OF A, of asciiHost] resolver_shift_only [OF a, of asciiHost]
    resolver_shift_only [OF n, of asciiHost] c A
  show ?thesis by simp
qed

subsection \<open>The lookup and the handler\<close>

lemma find_js_None: "find_js xs p = None \<longleftrightarrow> (\<forall>x \<in> set xs. \<not> p x)"
  by (induction xs) auto

lemma find_js_Some: "find_js xs p = Some x \<Longrightarrow> x \<in> set xs \<and> p x"
  by (induction xs) (auto split: if_splits)

lemma find_js_append:
  "find_js (xs @ ys) p = (case find_js xs p of Some x \<Rightarrow> Some x | None \<Rightarrow> find_js ys p)"
  by (induction xs) auto

lemma hotkeys_onkeydown [simp]: "hotkeys (onkeydown host e s) = hotkeys s"
  by (simp add: onkeydown_def split: option.splits)

lemma game_onkeydown [simp]: "game (onkeydown host e s) = game s"
  by (simp add: onkeydown_def split: option.splits)

lemma lookupHotkey_no_member:
  "\<forall>k \<in> set keys. reg k = None \<Longrightarrow>
   lookupHotkey reg keys = (case reg '''' of Some v \<Rightarrow> v | None \<Rightarrow> None)"
  using find_js_None [of keys "\<lambda>k. reg k \<noteq> None"] by (simp add: lookupHotkey_def)

lemma onkeydown_found:
  assumes "target e \<noteq> Some ''INPUT''" and "\<not> (hasWon (game s) \<and> \<not> keepGoing (game s))"
    and "lookupHotkey (hotkeys s) (keysToCheck host e) = Some h"
  shows "onkeydown host e s =
    (if unref (game s) (enabled h)
     then s\<lparr>calls := calls s @ [PreventDefault, OnPress (onPress h)]\<rparr> else s)"
  using assms by (simp add: onkeydown_def push_def)

lemma onkeydown_not_found:
  assumes "lookupHotkey (hotkeys s) (keysToCheck host e) = None"
  shows "onkeydown host e s = s"
  using assms by (simp add: onkeydown_def)

subsection \<open>The example values\<close>

lemma type_hotkeyOn [simp]: "type (hotkeyOn k a) = HotkeyType"
  by (simp add: hotkeyOn_def createHotkey_def)

lemma key_hotkeyOn [simp]: "GenericHotkey.key (hotkeyOn k a) = k"
  by (simp add: hotkeyOn_def createHotkey_def)

lemma enabled_hotkeyOn [simp]: "enabled (hotkeyOn k a) = Value True"
  by (simp add: hotkeyOn_def createHotkey_def)

lemma onPress_hotkeyOn [simp]: "onPress (hotkeyOn k a) = a"
  by (simp add: hotkeyOn_def createHotkey_def)

lemma findFeatures_layerOf [simp]:
  "findFeatures (layerOf (hotkeyOn k a)) HotkeyType = [hotkeyOn k a]"
  by (simp add: layerOf_def)

lemma target_press [simp]: "target (press k shift ctrl) = None"
  by (simp add: press_def)

lemma gate_playing [simp]: "\<not> (hasWon playing \<and> \<not> keepGoing playing)"
  by (simp add: playing_def)

subsection \<open>The registry along a history\<close>

lemma fold_register:
  "fold (\<lambda>hotkey reg. reg(GenericHotkey.key hotkey \<mapsto> Some hotkey)) hs reg k =
     (case find_js (rev hs) (hasKey k) of Some h \<Rightarrow> Some (Some h) | None \<Rightarrow> reg k)"
proof (induction hs arbitrary: reg)
  case Nil
  show ?case by simp
next
  case (Cons x xs)
  let ?f = "\<lambda>hotkey reg. reg(GenericHotkey.key hotkey \<mapsto> Some hotkey)"
  have "fold ?f (x # xs) reg k = fold ?f xs (reg(GenericHotkey.key x \<mapsto> Some x)) k"
    by simp
  also have "\<dots> = (case find_js (rev xs) (hasKey k) of
                      Some h \<Rightarrow> Some (Some h)
                    | None \<Rightarrow> (reg(GenericHotkey.key x \<mapsto> Some x)) k)"
    by (rule Cons.IH)
  also have "\<dots> = (case find_js (rev (x # xs)) (hasKey k) of
                      Some h \<Rightarrow> Some (Some h)
                    | None \<Rightarrow> reg k)"
    by (simp add: find_js_append hasKey_def split: option.splits)
  finally show ?case .
qed

lemma fold_clear:
  "fold (\<lambda>hotkey reg. reg(GenericHotkey.key hotkey \<mapsto> None)) hs reg k =
     (if k \<in> GenericHotkey.key ` set hs then Some None else reg k)"
  by (induction hs arbitrary: reg) auto

lemma hotkeys_addLayer:
  "hotkeys (addLayer layer s) k =
     (case find_js (rev (findFeatures layer HotkeyType)) (hasKey k) of
        Some h \<Rightarrow> Some (Some h)
      | None \<Rightarrow> hotkeys s k)"
  by (simp add: addLayer_def fold_register)

lemma hotkeys_removeLayer:
  "hotkeys (removeLayer layer s) k =
     (if k \<in> GenericHotkey.key ` set (findFeatures layer HotkeyType) then Some None
      else hotkeys s k)"
  by (simp add: removeLayer_def fold_clear)

lemma calls_addLayer [simp]: "calls (addLayer layer s) = calls s"
  by (simp add: addLayer_def)

lemma game_addLayer [simp]: "game (addLayer layer s) = game s"
  by (simp add: addLayer_def)

lemma game_initialState [simp]: "game (initialState g) = g"
  by (simp add: initialState_def)

lemma calls_initialState [simp]: "calls (initialState g) = []"
  by (simp add: initialState_def)

lemma emitAll_snoc: "emitAll (ns @ [n]) s = emit n (emitAll ns s)"
  by (simp add: emitAll_def)

lemma registrations_append: "registrations (ns @ ms) = registrations ns @ registrations ms"
  by (induction ns rule: registrations.induct) simp_all

lemma mostRecentlyRegistered_snoc_add:
  "mostRecentlyRegistered k (ns @ [AddLayer layer]) =
     (case find_js (rev (findFeatures layer HotkeyType)) (hasKey k) of
        Some h \<Rightarrow> Some h
      | None \<Rightarrow> mostRecentlyRegistered k ns)"
  by (simp add: mostRecentlyRegistered_def registrations_append find_js_append
           split: option.splits)

lemma mostRecentlyRegistered_snoc_remove:
  "mostRecentlyRegistered k (ns @ [RemoveLayer layer]) = mostRecentlyRegistered k ns"
  by (simp add: mostRecentlyRegistered_def registrations_append)

lemma registry_holds_most_recent:
  "hotkeys (emitAll ns s) k = Some (Some h) \<Longrightarrow>
   (case mostRecentlyRegistered k ns of
      Some h' \<Rightarrow> h' = h
    | None \<Rightarrow> hotkeys s k = Some (Some h))"
proof (induction ns arbitrary: h rule: rev_induct)
  case Nil
  then show ?case by (simp add: emitAll_def mostRecentlyRegistered_def)
next
  case (snoc n ns)
  show ?case
  proof (cases n)
    case (AddLayer layer)
    show ?thesis
    proof (cases "find_js (rev (findFeatures layer HotkeyType)) (hasKey k)")
      case None
      with snoc.prems AddLayer have "hotkeys (emitAll ns s) k = Some (Some h)"
        by (simp add: emitAll_snoc hotkeys_addLayer)
      from snoc.IH [OF this] None AddLayer show ?thesis
        by (simp add: mostRecentlyRegistered_snoc_add)
    next
      case (Some h')
      with snoc.prems AddLayer show ?thesis
        by (simp add: emitAll_snoc hotkeys_addLayer mostRecentlyRegistered_snoc_add)
    qed
  next
    case (RemoveLayer layer)
    with snoc.prems have "hotkeys (emitAll ns s) k = Some (Some h)"
      by (simp add: emitAll_snoc hotkeys_removeLayer split: if_splits)
    from snoc.IH [OF this] RemoveLayer show ?thesis
      by (simp add: mostRecentlyRegistered_snoc_remove)
  qed
qed

text \<open>
  A key string that no notification of the history has mentioned is not a property name
  of the registry: this is the state of a string that was never registered.
\<close>

lemma never_registered_absent:
  assumes "\<forall>n \<in> set ns. k \<notin> GenericHotkey.key `
             set (findFeatures (case n of AddLayer l \<Rightarrow> l | RemoveLayer l \<Rightarrow> l) HotkeyType)"
  shows "hotkeys (emitAll ns (initialState g)) k = None"
  using assms
proof (induction ns rule: rev_induct)
  case Nil
  show ?case by (simp add: emitAll_def initialState_def)
next
  case (snoc n ns)
  then have IH: "hotkeys (emitAll ns (initialState g)) k = None" by simp
  show ?case
  proof (cases n)
    case (AddLayer layer)
    with snoc.prems have "\<forall>h \<in> set (rev (findFeatures layer HotkeyType)). \<not> hasKey k h"
      by (auto simp: hasKey_def)
    then have "find_js (rev (findFeatures layer HotkeyType)) (hasKey k) = None"
      by (simp only: find_js_None)
    with IH AddLayer show ?thesis
      by (simp add: emitAll_snoc hotkeys_addLayer)
  next
    case (RemoveLayer layer)
    with snoc.prems IH show ?thesis
      by (simp add: emitAll_snoc hotkeys_removeLayer)
  qed
qed

text \<open>
  Claim C10. When a definition is stored under the empty string, a key press that
  passes the two gates and has no candidate among the property names of the registry
  fires that definition, provided its \<open>enabled\<close> reads true.
\<close>

theorem empty_key_fallback:
  assumes "hotkeys s '''' = Some (Some h)"
    and "target e \<noteq> Some ''INPUT''"
    and "\<not> (hasWon (game s) \<and> \<not> keepGoing (game s))"
    and "\<forall>k \<in> set (keysToCheck host e). hotkeys s k = None"
    and "unref (game s) (enabled h)"
  shows "onkeydown host e s = s\<lparr>calls := calls s @ [PreventDefault, OnPress (onPress h)]\<rparr>"
proof -
  from assms(1,4) have "lookupHotkey (hotkeys s) (keysToCheck host e) = Some h"
    by (simp add: lookupHotkey_no_member)
  from onkeydown_found [OF assms(2,3) this] assms(5) show ?thesis by simp
qed

theorem empty_key_fallback_witness:
  "hotkeys (addLayer (layerOf (hotkeyOn '''' 7)) (initialState playing)) ''''
     = Some (Some (hotkeyOn '''' 7)) \<and>
   keysToCheck asciiHost (press ''x'' False False) = [''x''] \<and>
   hotkeys (addLayer (layerOf (hotkeyOn '''' 7)) (initialState playing)) ''x'' = None \<and>
   calls (onkeydown asciiHost (press ''x'' False False)
            (addLayer (layerOf (hotkeyOn '''' 7)) (initialState playing)))
     = [PreventDefault, OnPress 7]"
proof -
  let ?s = "addLayer (layerOf (hotkeyOn '''' 7)) (initialState playing)"
  let ?e = "press ''x'' False False"
  have ks: "keysToCheck asciiHost ?e = [''x'']" by code_simp
  have 1: "hotkeys ?s '''' = Some (Some (hotkeyOn '''' 7))"
    and 2: "hotkeys ?s ''x'' = None"
    and g: "game ?s = playing" and c: "calls ?s = []"
    by (simp_all add: addLayer_def initialState_def)
  have 3: "target ?e \<noteq> Some ''INPUT''" by simp
  have 4: "\<not> (hasWon (game ?s) \<and> \<not> keepGoing (game ?s))" by (simp add: g)
  have 5: "\<forall>k \<in> set (keysToCheck asciiHost ?e). hotkeys ?s k = None" by (simp add: ks 2)
  have 6: "unref (game ?s) (enabled (hotkeyOn '''' 7))" by simp
  from empty_key_fallback [OF 1 3 4 5 6]
  have "calls (onkeydown asciiHost ?e ?s) = [PreventDefault, OnPress 7]"
    by (simp add: c)
  with 1 2 ks show ?thesis by blast
qed

subsection \<open>Presses that match nothing, and presses with shift\<close>

lemma lookupHotkey_no_definition:
  assumes "\<forall>k \<in> set keys. \<forall>h. reg k \<noteq> Some (Some h)"
  shows "lookupHotkey reg keys = None \<or>
         (\<exists>h. lookupHotkey reg keys = Some h \<and> reg [] = Some (Some h))"
proof (cases "find_js keys (\<lambda>k. reg k \<noteq> None)")
  case None
  then have "lookupHotkey reg keys = (case reg [] of Some v \<Rightarrow> v | None \<Rightarrow> None)"
    by (simp add: lookupHotkey_def)
  then show ?thesis
    by (cases "reg []"; cases "lookupHotkey reg keys") auto
next
  case (Some k)
  from find_js_Some [OF Some] have k: "k \<in> set keys" and "reg k \<noteq> None" by simp_all
  then obtain v where v: "reg k = Some v" by blast
  with assms k have "v = None" by (cases v) auto
  with Some v show ?thesis by (simp add: lookupHotkey_def)
qed

lemma no_definition_no_action:
  assumes "\<forall>k \<in> set (keysToCheck host e). \<forall>h. hotkeys s k \<noteq> Some (Some h)"
    and "\<forall>h. hotkeys s '''' = Some (Some h) \<longrightarrow> \<not> unref (game s) (enabled h)"
  shows "onkeydown host e s = s"
proof -
  from lookupHotkey_no_definition [OF assms(1)] show ?thesis
  proof (elim disjE exE conjE)
    assume "lookupHotkey (hotkeys s) (keysToCheck host e) = None"
    then show ?thesis by (rule onkeydown_not_found)
  next
    fix h
    assume found: "lookupHotkey (hotkeys s) (keysToCheck host e) = Some h"
      and "hotkeys s [] = Some (Some h)"
    with assms(2) have "\<not> unref (game s) (enabled h)" by blast
    with found show ?thesis by (simp add: onkeydown_def)
  qed
qed

lemma never_registered_no_definition:
  assumes "k \<notin> GenericHotkey.key ` set (registrations ns)"
  shows "hotkeys (emitAll ns (initialState g)) k \<noteq> Some (Some h)"
proof
  assume "hotkeys (emitAll ns (initialState g)) k = Some (Some h)"
  from registry_holds_most_recent [OF this]
  have "mostRecentlyRegistered k ns = Some h"
    by (cases "mostRecentlyRegistered k ns") (simp_all add: initialState_def)
  then have "find_js (rev (registrations ns)) (hasKey k) = Some h"
    by (simp add: mostRecentlyRegistered_def)
  from find_js_Some [OF this] have "h \<in> set (registrations ns)" and "GenericHotkey.key h = k"
    by (simp_all add: hasKey_def)
  with assms show False by blast
qed

text \<open>
  Claim C7. Every hotkey has a non-empty key, so the empty string is not among the keys
  the history has registered. Then a key press none of whose candidates is a string the
  history has ever registered changes nothing: no callback is invoked, \<open>preventDefault\<close>
  is not called, and the registry is what it was. The state of the press is any state
  whose registry is the one the history of notifications has built.
\<close>

theorem never_registered_no_action:
  assumes "hotkeys s = hotkeys (emitAll ns (initialState g))"
    and "'''' \<notin> GenericHotkey.key ` set (registrations ns)"
    and "\<forall>k \<in> set (keysToCheck host e). k \<notin> GenericHotkey.key ` set (registrations ns)"
  shows "onkeydown host e s = s"
proof (rule no_definition_no_action)
  show "\<forall>k \<in> set (keysToCheck host e). \<forall>h. hotkeys s k \<noteq> Some (Some h)"
    using assms(1,3) never_registered_no_definition [of _ ns g] by simp
  show "\<forall>h. hotkeys s '''' = Some (Some h) \<longrightarrow> \<not> unref (game s) (enabled h)"
    using assms(1,2) never_registered_no_definition [of "''''" ns g] by simp
qed

theorem never_registered_no_action_witness:
  "registrations [AddLayer (layerOf (hotkeyOn ''q'' 4)), RemoveLayer (layerOf (hotkeyOn ''q'' 4)),
                  AddLayer (layerOf (hotkeyOn ''shift+Q'' 5))]
     = [hotkeyOn ''q'' 4, hotkeyOn ''shift+Q'' 5] \<and>
   keysToCheck asciiHost (press ''x'' True False) = [''x'', ''shift+X'', ''shift+x''] \<and>
   onkeydown asciiHost (press ''x'' True False)
     (emitAll [AddLayer (layerOf (hotkeyOn ''q'' 4)), RemoveLayer (layerOf (hotkeyOn ''q'' 4)),
               AddLayer (layerOf (hotkeyOn ''shift+Q'' 5))] (initialState playing))
     = emitAll [AddLayer (layerOf (hotkeyOn ''q'' 4)), RemoveLayer (layerOf (hotkeyOn ''q'' 4)),
                AddLayer (layerOf (hotkeyOn ''shift+Q'' 5))] (initialState playing)"
proof -
  let ?ns = "[AddLayer (layerOf (hotkeyOn ''q'' 4)), RemoveLayer (layerOf (hotkeyOn ''q'' 4)),
              AddLayer (layerOf (hotkeyOn ''shift+Q'' 5))]"
  let ?s = "emitAll ?ns (initialState playing)"
  let ?e = "press ''x'' True False"
  have regs: "registrations ?ns = [hotkeyOn ''q'' 4, hotkeyOn ''shift+Q'' 5]" by simp
  have ks: "keysToCheck asciiHost ?e = [''x'', ''shift+X'', ''shift+x'']" by code_simp
  have 1: "hotkeys ?s = hotkeys (emitAll ?ns (initialState playing))" by simp
  have 2: "'''' \<notin> GenericHotkey.key ` set (registrations ?ns)" by (simp add: regs)
  have 3: "\<forall>k \<in> set (keysToCheck asciiHost ?e). k \<notin> GenericHotkey.key ` set (registrations ?ns)"
    by (simp add: regs ks)
  from never_registered_no_action [OF 1 2 3] regs ks show ?thesis by blast
qed

text \<open>
  Claim C5, as amended. When a hotkey is registered under \<open>shift+A\<close> and \<open>a\<close> is not a
  property name of the registry, a key press reported with key \<open>a\<close>, shift held and
  ctrl not held, is matched with that hotkey: the candidates are \<open>a\<close>, \<open>shift+A\<close>,
  \<open>shift+a\<close> in this order, so \<open>shift+A\<close> is probed before \<open>shift+a\<close>, and the press that
  passes the gates fires the hotkey when it is enabled. The host turns \<open>a\<close> into \<open>A\<close>
  and leaves it \<open>a\<close> in lower case.
\<close>

theorem shift_a_matches_shift_A:
  assumes "key e = ''a''" and "shiftKey e" and "\<not> ctrlKey e"
    and "toUpperCase host ''a'' = ''A''" and "toLowerCase host ''a'' = ''a''"
    and "hotkeys s ''shift+A'' = Some (Some h)"
    and "hotkeys s ''a'' = None"
    and "target e \<noteq> Some ''INPUT''"
    and "\<not> (hasWon (game s) \<and> \<not> keepGoing (game s))"
    and "unref (game s) (enabled h)"
  shows "keysToCheck host e = [''a'', ''shift+A'', ''shift+a''] \<and>
         lookupHotkey (hotkeys s) (keysToCheck host e) = Some h \<and>
         onkeydown host e s = s\<lparr>calls := calls s @ [PreventDefault, OnPress (onPress h)]\<rparr>"
proof -
  have "\<not> includes_js uppercaseNumbers ''a''" by code_simp
  then have ks: "keysToCheck host e = [''a'', ''shift+A'', ''shift+a'']"
    using keysToCheck_shift [of e host] assms(1-5) by simp
  from assms(6,7) have found: "lookupHotkey (hotkeys s) (keysToCheck host e) = Some h"
    by (simp add: ks lookupHotkey_def)
  from onkeydown_found [OF assms(8,9) found] assms(10) ks found show ?thesis by simp
qed

theorem shift_a_matches_shift_A_witness:
  "hotkeys (addLayer (layerOf (hotkeyOn ''shift+A'' 6)) (initialState playing)) ''shift+A''
     = Some (Some (hotkeyOn ''shift+A'' 6)) \<and>
   hotkeys (addLayer (layerOf (hotkeyOn ''shift+A'' 6)) (initialState playing)) ''a'' = None \<and>
   toUpperCase asciiHost ''a'' = ''A'' \<and> toLowerCase asciiHost ''a'' = ''a'' \<and>
   keysToCheck asciiHost (press ''a'' True False) = [''a'', ''shift+A'', ''shift+a''] \<and>
   calls (onkeydown asciiHost (press ''a'' True False)
            (addLayer (layerOf (hotkeyOn ''shift+A'' 6)) (initialState playing)))
     = [PreventDefault, OnPress 6]"
proof -
  let ?s = "addLayer (layerOf (hotkeyOn ''shift+A'' 6)) (initialState playing)"
  let ?e = "press ''a'' True False"
  have e: "key ?e = ''a''" "shiftKey ?e" "\<not> ctrlKey ?e" "target ?e \<noteq> Some ''INPUT''"
    by (simp_all add: press_def)
  have c: "toUpperCase asciiHost ''a'' = ''A''" "toLowerCase asciiHost ''a'' = ''a''"
    by code_simp+
  have 1: "hotkeys ?s ''shift+A'' = Some (Some (hotkeyOn ''shift+A'' 6))"
    and 2: "hotkeys ?s ''a'' = None"
    and g: "game ?s = playing" and n: "calls ?s = []"
    by (simp_all add: addLayer_def initialState_def)
  have 3: "\<not> (hasWon (game ?s) \<and> \<not> keepGoing (game ?s))" by (simp add: g)
  have 4: "unref (game ?s) (enabled (hotkeyOn ''shift+A'' 6))" by simp
  note r = shift_a_matches_shift_A [OF e(1-3) c 1 2 e(4) 3 4]
  from r have "calls (onkeydown asciiHost ?e ?s) = [PreventDefault, OnPress 6]"
    by (simp add: n)
  with r c 1 2 show ?thesis by blast
qed

text \<open>
  The claim as it stands fails: with a hotkey registered under \<open>A\<close>, enabled, and no gate
  closed, the press reported with key \<open>a\<close> and shift held has the candidates \<open>a\<close>,
  \<open>shift+A\<close> and \<open>shift+a\<close>, none of them \<open>A\<close>, and makes no call.
\<close>

theorem shift_a_misses_A:
  "hotkeys (addLayer (layerOf (hotkeyOn ''A'' 1)) (initialState playing)) ''A''
     = Some (Some (hotkeyOn ''A'' 1)) \<and>
   enabled (hotkeyOn ''A'' 1) = Value True \<and>
   keysToCheck asciiHost (press ''a'' True False) = [''a'', ''shift+A'', ''shift+a''] \<and>
   calls (onkeydown asciiHost (press ''a'' True False)
            (addLayer (layerOf (hotkeyOn ''A'' 1)) (initialState playing))) = []"
proof -
  let ?s = "addLayer (layerOf (hotkeyOn ''A'' 1)) (initialState playing)"
  have "hotkeys ?s ''A'' = Some (Some (hotkeyOn ''A'' 1))"
    by (simp add: addLayer_def initialState_def)
  moreover have "keysToCheck asciiHost (press ''a'' True False) = [''a'', ''shift+A'', ''shift+a'']"
    by code_simp
  moreover have "calls (onkeydown asciiHost (press ''a'' True False) ?s) = []"
    by code_simp
  ultimately show ?thesis by simp
qed

text \<open>
  Claim C6. While the game is won and the player has not chosen to keep going, a key
  press changes nothing, whatever the registry holds: no call is made. Once the
  preference is true the handler is the lookup in the same registry again: a press
  that does not target an input field fires the entry found when it is enabled.
\<close>

theorem won_gate:
  "(hasWon (game s) \<and> \<not> keepGoing (game s) \<longrightarrow> onkeydown host e s = s) \<and>
   (target e \<noteq> Some ''INPUT'' \<longrightarrow>
      onkeydown host e (s\<lparr>game := (game s)\<lparr>keepGoing := True\<rparr>\<rparr>) =
        (case lookupHotkey (hotkeys s) (keysToCheck host e) of
           Some h \<Rightarrow>
             if unref ((game s)\<lparr>keepGoing := True\<rparr>) (enabled h)
             then s\<lparr>game := (game s)\<lparr>keepGoing := True\<rparr>,
                    calls := calls s @ [PreventDefault, OnPress (onPress h)]\<rparr>
             else s\<lparr>game := (game s)\<lparr>keepGoing := True\<rparr>\<rparr>
         | None \<Rightarrow> s\<lparr>game := (game s)\<lparr>keepGoing := True\<rparr>\<rparr>))"
  by (simp add: onkeydown_def push_def split: option.splits)

theorem won_gate_witness:
  "hasWon wonGame \<and> \<not> keepGoing wonGame \<and>
   hotkeys (addLayer (layerOf (hotkeyOn ''q'' 5)) (initialState wonGame)) ''q''
     = Some (Some (hotkeyOn ''q'' 5)) \<and>
   onkeydown asciiHost (press ''q'' False False) (addLayer (layerOf (hotkeyOn ''q'' 5)) (initialState wonGame))
     = addLayer (layerOf (hotkeyOn ''q'' 5)) (initialState wonGame) \<and>
   calls (onkeydown asciiHost (press ''q'' False False)
           ((addLayer (layerOf (hotkeyOn ''q'' 5)) (initialState wonGame))
              \<lparr>game := wonGame\<lparr>keepGoing := True\<rparr>\<rparr>))
     = [PreventDefault, OnPress 5]"
proof -
  let ?s = "addLayer (layerOf (hotkeyOn ''q'' 5)) (initialState wonGame)"
  let ?e = "press ''q'' False False"
  have g: "game ?s = wonGame" and c: "calls ?s = []"
    and 1: "hotkeys ?s ''q'' = Some (Some (hotkeyOn ''q'' 5))"
    by (simp_all add: addLayer_def initialState_def)
  have w: "hasWon wonGame" "\<not> keepGoing wonGame" by (simp_all add: wonGame_def)
  have ks: "keysToCheck asciiHost ?e = [''q'']" by code_simp
  from 1 have found: "lookupHotkey (hotkeys ?s) (keysToCheck asciiHost ?e) = Some (hotkeyOn ''q'' 5)"
    by (simp add: ks lookupHotkey_def)
  have 2: "onkeydown asciiHost ?e ?s = ?s"
    using won_gate [where s = ?s and e = ?e and host = asciiHost, THEN conjunct1] w by (simp add: g)
  have "target ?e \<noteq> Some ''INPUT''" by simp
  with won_gate [where s = ?s and e = ?e and host = asciiHost, THEN conjunct2]
  have "calls (onkeydown asciiHost ?e (?s\<lparr>game := (game ?s)\<lparr>keepGoing := True\<rparr>\<rparr>))
          = [PreventDefault, OnPress 5]"
    by (simp add: found c)
  then have 3: "calls (onkeydown asciiHost ?e (?s\<lparr>game := wonGame\<lparr>keepGoing := True\<rparr>\<rparr>))
          = [PreventDefault, OnPress 5]"
    by (simp add: g)
  from w 1 2 3 show ?thesis by blast
qed

subsection \<open>The enabled field at the time of a press\<close>

lemma findFeatures_layerOf_hotkey:
  "type h = HotkeyType \<Longrightarrow> findFeatures (layerOf h) HotkeyType = [h]"
  by (simp add: layerOf_def)

lemma type_hotkeyWhenFlag [simp]: "type (hotkeyWhenFlag k a) = HotkeyType"
  by (simp add: hotkeyWhenFlag_def createHotkey_def)

lemma key_hotkeyWhenFlag [simp]: "GenericHotkey.key (hotkeyWhenFlag k a) = k"
  by (simp add: hotkeyWhenFlag_def createHotkey_def)

lemma enabled_hotkeyWhenFlag [simp]: "enabled (hotkeyWhenFlag k a) = Wrapper world"
  by (simp add: hotkeyWhenFlag_def createHotkey_def)

lemma onPress_hotkeyWhenFlag [simp]: "onPress (hotkeyWhenFlag k a) = a"
  by (simp add: hotkeyWhenFlag_def createHotkey_def)

lemma type_hotkeyOff [simp]: "type (hotkeyOff k a) = HotkeyType"
  by (simp add: hotkeyOff_def createHotkey_def)

lemma key_hotkeyOff [simp]: "GenericHotkey.key (hotkeyOff k a) = k"
  by (simp add: hotkeyOff_def createHotkey_def)

text \<open>
  Claim C9. \<open>createHotkey\<close> keeps the key and the callback of the options. The
  \<open>enabled\<close> field of the hotkey it makes reads true at every state when the options
  leave it out, reads the plain value when the options give one, and reads the value of
  the deferred computation at the state of the read when the options give one. A press
  that passes the gates and is matched with a hotkey makes the two calls if \<open>enabled\<close>
  reads true at the state of that press, and makes no call otherwise.
\<close>

theorem enabled_is_current:
  "(HotkeyOptions.enabled options = None \<longrightarrow>
      unref g (enabled (createHotkey options)) = True) \<and>
   (HotkeyOptions.enabled options = Some (Plain b) \<longrightarrow>
      unref g (enabled (createHotkey options)) = b) \<and>
   (HotkeyOptions.enabled options = Some (Deferred f) \<longrightarrow>
      unref g (enabled (createHotkey options)) = f g) \<and>
   GenericHotkey.key (createHotkey options) = HotkeyOptions.key options \<and>
   onPress (createHotkey options) = HotkeyOptions.onPress options \<and>
   (target e \<noteq> Some ''INPUT'' \<and> \<not> (hasWon (game s) \<and> \<not> keepGoing (game s)) \<and>
    lookupHotkey (hotkeys s) (keysToCheck host e) = Some h \<longrightarrow>
      calls (onkeydown host e s) =
        calls s @ (if unref (game s) (enabled h) then [PreventDefault, OnPress (onPress h)] else []))"
  by (simp add: createHotkey_def onkeydown_def push_def)

theorem enabled_is_current_witness:
  "unref flagOff (enabled (hotkeyOn ''x'' 0)) = True \<and>
   unref playing (enabled (hotkeyOff ''d'' 8)) = False \<and>
   unref flagOff (enabled (hotkeyWhenFlag ''t'' 9)) = False \<and>
   unref playing (enabled (hotkeyWhenFlag ''t'' 9)) = True \<and>
   hotkeys (addLayer (layerOf (hotkeyOff ''d'' 8)) (initialState playing)) ''d''
     = Some (Some (hotkeyOff ''d'' 8)) \<and>
   calls (onkeydown asciiHost (press ''d'' False False)
            (addLayer (layerOf (hotkeyOff ''d'' 8)) (initialState playing))) = [] \<and>
   calls (onkeydown asciiHost (press ''t'' False False)
            (addLayer (layerOf (hotkeyWhenFlag ''t'' 9)) (initialState flagOff))) = [] \<and>
   calls (onkeydown asciiHost (press ''t'' False False)
            ((addLayer (layerOf (hotkeyWhenFlag ''t'' 9)) (initialState flagOff))
               \<lparr>game := playing\<rparr>)) = [PreventDefault, OnPress 9] \<and>
   calls (onkeydown asciiHost (press ''t'' False False)
            ((onkeydown asciiHost (press ''t'' False False)
                ((addLayer (layerOf (hotkeyWhenFlag ''t'' 9)) (initialState flagOff))
                   \<lparr>game := playing\<rparr>))
               \<lparr>game := flagOff\<rparr>)) = [PreventDefault, OnPress 9]"
proof -
  let ?h = "hotkeyWhenFlag ''t'' 9"
  let ?d = "hotkeyOff ''d'' 8"
  let ?e = "press ''t'' False False"
  let ?ed = "press ''d'' False False"
  let ?s0 = "addLayer (layerOf ?h) (initialState flagOff)"
  let ?s1 = "?s0\<lparr>game := playing\<rparr>"
  let ?s2 = "(onkeydown asciiHost ?e ?s1)\<lparr>game := flagOff\<rparr>"
  let ?sd = "addLayer (layerOf ?d) (initialState playing)"
  let ?o0 = "\<lparr> HotkeyOptions.enabled = None, HotkeyOptions.key = ''x'',
               HotkeyOptions.description = Plain ''a hotkey'', HotkeyOptions.onPress = (0::nat) \<rparr>
             :: (bool, nat) HotkeyOptions"
  let ?o1 = "\<lparr> HotkeyOptions.enabled = Some (Deferred world), HotkeyOptions.key = ''t'',
               HotkeyOptions.description = Plain ''a hotkey'', HotkeyOptions.onPress = (9::nat) \<rparr>
             :: (bool, nat) HotkeyOptions"
  let ?o2 = "\<lparr> HotkeyOptions.enabled = Some (Plain False), HotkeyOptions.key = ''d'',
               HotkeyOptions.description = Plain ''a hotkey'', HotkeyOptions.onPress = (8::nat) \<rparr>
             :: (bool, nat) HotkeyOptions"
  note opt0 = enabled_is_current [where options = ?o0 and g = flagOff]
  note opt1 = enabled_is_current [where options = ?o1 and f = world]
  note opt2 = enabled_is_current [where options = ?o2 and g = playing and b = False]
  have a: "unref flagOff (enabled (hotkeyOn ''x'' 0)) = True"
    using opt0 [THEN conjunct1] by (simp add: hotkeyOn_def)
  have d: "unref playing (enabled ?d) = False"
    using opt2 [THEN conjunct2, THEN conjunct1] by (simp add: hotkeyOff_def)
  have b: "unref flagOff (enabled ?h) = False"
    using opt1 [where g = flagOff, THEN conjunct2, THEN conjunct2, THEN conjunct1]
    by (simp add: hotkeyWhenFlag_def flagOff_def)
  have c: "unref playing (enabled ?h) = True"
    using opt1 [where g = playing, THEN conjunct2, THEN conjunct2, THEN conjunct1]
    by (simp add: hotkeyWhenFlag_def playing_def)
  have ks: "keysToCheck asciiHost ?e = [''t'']" and ksd: "keysToCheck asciiHost ?ed = [''d'']"
    by code_simp+
  have reg: "hotkeys ?s0 ''t'' = Some (Some ?h)" and c0: "calls ?s0 = []" and g0: "game ?s0 = flagOff"
    and regd: "hotkeys ?sd ''d'' = Some (Some ?d)" and cd: "calls ?sd = []"
    and gd: "game ?sd = playing"
    by (simp_all add: addLayer_def initialState_def findFeatures_layerOf_hotkey)
  have off: "\<not> (hasWon flagOff \<and> \<not> keepGoing flagOff)" by (simp add: flagOff_def)
  have t: "target ?e \<noteq> Some ''INPUT''" "target ?ed \<noteq> Some ''INPUT''" by simp_all
  have f0: "lookupHotkey (hotkeys ?s0) (keysToCheck asciiHost ?e) = Some ?h"
    by (simp add: ks lookupHotkey_def reg)
  have f1: "lookupHotkey (hotkeys ?s1) (keysToCheck asciiHost ?e) = Some ?h"
    by (simp add: ks lookupHotkey_def reg)
  have f2: "lookupHotkey (hotkeys ?s2) (keysToCheck asciiHost ?e) = Some ?h"
    by (simp add: ks lookupHotkey_def reg)
  have fd: "lookupHotkey (hotkeys ?sd) (keysToCheck asciiHost ?ed) = Some ?d"
    by (simp add: ksd lookupHotkey_def regd)
  have pd: "calls (onkeydown asciiHost ?ed ?sd) = []"
    using enabled_is_current [where host = asciiHost and e = ?ed and s = ?sd and h = ?d,
        THEN conjunct2, THEN conjunct2, THEN conjunct2, THEN conjunct2, THEN conjunct2]
      t fd d by (simp add: gd cd)
  have p0: "calls (onkeydown asciiHost ?e ?s0) = []"
    using enabled_is_current [where host = asciiHost and e = ?e and s = ?s0 and h = ?h,
        THEN conjunct2, THEN conjunct2, THEN conjunct2, THEN conjunct2, THEN conjunct2]
      t off f0 b by (simp add: g0 c0)
  have p1: "calls (onkeydown asciiHost ?e ?s1) = [PreventDefault, OnPress 9]"
    using enabled_is_current [where host = asciiHost and e = ?e and s = ?s1 and h = ?h,
        THEN conjunct2, THEN conjunct2, THEN conjunct2, THEN conjunct2, THEN conjunct2]
      t f1 c by (simp add: c0)
  have p2: "calls (onkeydown asciiHost ?e ?s2) = [PreventDefault, OnPress 9]"
    using enabled_is_current [where host = asciiHost and e = ?e and s = ?s2 and h = ?h,
        THEN conjunct2, THEN conjunct2, THEN conjunct2, THEN conjunct2, THEN conjunct2]
      t off f2 b p1 by simp
  from a b c d regd pd p0 p1 p2 show ?thesis by blast
qed

text \<open>
  Claim C1, on the code. After a layer that registered \<open>A\<close> and a layer that registered
  \<open>shift+A\<close> are added and the first is removed, \<open>A\<close> is still a property name of the
  registry, with no value, and \<open>shift+A\<close> holds its hotkey. The press of \<open>A\<close> with shift
  held has the candidates \<open>A\<close>, \<open>shift+A\<close>, \<open>shift+a\<close>; the lookup stops at \<open>A\<close> and the
  handler makes no call.
\<close>

theorem cleared_key_shadows_later_candidate:
  "keysToCheck asciiHost (press ''A'' True False) = [''A'', ''shift+A'', ''shift+a''] \<and>
   hotkeys (emitAll [AddLayer (layerOf (hotkeyOn ''A'' 1)),
                     AddLayer (layerOf (hotkeyOn ''shift+A'' 2)),
                     RemoveLayer (layerOf (hotkeyOn ''A'' 1))] (initialState playing)) ''A''
     = Some None \<and>
   hotkeys (emitAll [AddLayer (layerOf (hotkeyOn ''A'' 1)),
                     AddLayer (layerOf (hotkeyOn ''shift+A'' 2)),
                     RemoveLayer (layerOf (hotkeyOn ''A'' 1))] (initialState playing)) ''shift+A''
     = Some (Some (hotkeyOn ''shift+A'' 2)) \<and>
   unref playing (enabled (hotkeyOn ''shift+A'' 2)) \<and>
   calls (onkeydown asciiHost (press ''A'' True False)
            (emitAll [AddLayer (layerOf (hotkeyOn ''A'' 1)),
                      AddLayer (layerOf (hotkeyOn ''shift+A'' 2)),
                      RemoveLayer (layerOf (hotkeyOn ''A'' 1))] (initialState playing))) = []"
proof -
  let ?s = "emitAll [AddLayer (layerOf (hotkeyOn ''A'' 1)),
                     AddLayer (layerOf (hotkeyOn ''shift+A'' 2)),
                     RemoveLayer (layerOf (hotkeyOn ''A'' 1))] (initialState playing)"
  have "keysToCheck asciiHost (press ''A'' True False) = [''A'', ''shift+A'', ''shift+a'']"
    by code_simp
  moreover have "hotkeys ?s ''A'' = Some None"
    and "hotkeys ?s ''shift+A'' = Some (Some (hotkeyOn ''shift+A'' 2))"
    by (simp_all add: emitAll_def addLayer_def removeLayer_def initialState_def)
  moreover have "calls (onkeydown asciiHost (press ''A'' True False) ?s) = []"
    by code_simp
  ultimately show ?thesis by simp
qed

lemma fold_writes:
  "fold (\<lambda>hotkey reg. reg(GenericHotkey.key hotkey \<mapsto> v hotkey)) hs reg =
     reg ++ map_of (rev (map (\<lambda>hotkey. (GenericHotkey.key hotkey, v hotkey)) hs))"
proof (induction hs arbitrary: reg)
  case Nil
  show ?case by simp
next
  case (Cons x xs)
  let ?f = "\<lambda>hotkey reg. reg(GenericHotkey.key hotkey \<mapsto> v hotkey)"
  let ?w = "\<lambda>hotkey. (GenericHotkey.key hotkey, v hotkey)"
  have "fold ?f (x # xs) reg = fold ?f xs (reg(GenericHotkey.key x \<mapsto> v x))"
    by simp
  also have "\<dots> = reg(GenericHotkey.key x \<mapsto> v x) ++ map_of (rev (map ?w xs))"
    by (rule Cons.IH)
  also have "\<dots> = reg ++ map_of (rev (map ?w (x # xs)))"
    by (simp add: map_add_upd_left fun_eq_iff map_add_def split: option.splits)
  finally show ?case .
qed

lemma hotkeys_emit: "hotkeys (emit n s) = hotkeys s ++ map_of (rev (writes n))"
  by (cases n) (simp_all add: addLayer_def removeLayer_def fold_writes)

lemma hotkeys_emitAll:
  "hotkeys (emitAll ns s) = hotkeys s ++ map_of (rev (concat (map writes ns)))"
proof (induction ns arbitrary: s)
  case Nil
  show ?case by (simp add: emitAll_def)
next
  case (Cons n ns)
  have "hotkeys (emitAll (n # ns) s) = hotkeys (emitAll ns (emit n s))"
    by (simp add: emitAll_def)
  also have "\<dots> = (hotkeys s ++ map_of (rev (writes n))) ++ map_of (rev (concat (map writes ns)))"
    by (simp add: Cons.IH hotkeys_emit)
  also have "\<dots> = hotkeys s ++ map_of (rev (concat (map writes (n # ns))))"
    by simp
  finally show ?case .
qed

lemma first_candidate_unless_ctrl:
  assumes "\<not> ctrlKey e"
  shows "\<exists>rest. keysToCheck host e = key e # rest"
  using assms by (simp add: keysToCheck_def push_def Let_def)

text \<open>
  Claim C8. The registry is a dictionary, so it holds at most one value per key string.
  After any history of ``layer added'' and ``layer removed'' notifications, starting
  from the empty registry, the registry holds for every key string what the last write
  to that string has left; a definition that it holds is the one most recently
  registered for the string. Whatever the registry held before, once a layer is added
  the registry holds, for every key string the layer registers, the layer's (last)
  hotkey for it. So when a layer is added after another one, whatever that one has
  registered, a press of a key the later layer has registered (without ctrl, past the
  gates) fires the later layer's hotkey when it is enabled; the key \<open>R\<close> is one such key.
\<close>

theorem last_write_wins:
  "hotkeys (emitAll ns (initialState g)) k = lastWritten k ns \<and>
   (hotkeys (emitAll ns (initialState g)) k = Some (Some h) \<longrightarrow>
      mostRecentlyRegistered k ns = Some h) \<and>
   (find_js (rev (findFeatures layer2 HotkeyType)) (hasKey k) = Some h2 \<longrightarrow>
      hotkeys (addLayer layer2 (addLayer layer1 s)) k = Some (Some h2) \<and>
      (key e = k \<and> \<not> ctrlKey e \<and> target e \<noteq> Some ''INPUT'' \<and>
       \<not> (hasWon (game s) \<and> \<not> keepGoing (game s)) \<and> unref (game s) (enabled h2) \<longrightarrow>
         calls (onkeydown host e (addLayer layer2 (addLayer layer1 s))) =
           calls s @ [PreventDefault, OnPress (onPress h2)]))"
proof (intro conjI impI)
  show "hotkeys (emitAll ns (initialState g)) k = lastWritten k ns"
    by (simp add: hotkeys_emitAll lastWritten_def initialState_def)
next
  assume "hotkeys (emitAll ns (initialState g)) k = Some (Some h)"
  from registry_holds_most_recent [OF this]
  show "mostRecentlyRegistered k ns = Some h"
    by (cases "mostRecentlyRegistered k ns") (simp_all add: initialState_def)
next
  assume "find_js (rev (findFeatures layer2 HotkeyType)) (hasKey k) = Some h2"
  then show "hotkeys (addLayer layer2 (addLayer layer1 s)) k = Some (Some h2)"
    by (simp add: hotkeys_addLayer)
next
  let ?s = "addLayer layer2 (addLayer layer1 s)"
  assume "find_js (rev (findFeatures layer2 HotkeyType)) (hasKey k) = Some h2"
  then have reg: "hotkeys ?s k = Some (Some h2)"
    by (simp add: hotkeys_addLayer)
  assume a: "key e = k \<and> \<not> ctrlKey e \<and> target e \<noteq> Some ''INPUT'' \<and>
    \<not> (hasWon (game s) \<and> \<not> keepGoing (game s)) \<and> unref (game s) (enabled h2)"
  then obtain rest where "keysToCheck host e = k # rest"
    using first_candidate_unless_ctrl [of e host] by auto
  with reg have found: "lookupHotkey (hotkeys ?s) (keysToCheck host e) = Some h2"
    by (simp add: lookupHotkey_def)
  from a have "target e \<noteq> Some ''INPUT''"
    and "\<not> (hasWon (game ?s) \<and> \<not> keepGoing (game ?s))" and "unref (game ?s) (enabled h2)"
    by simp_all
  with onkeydown_found [OF _ _ found]
  show "calls (onkeydown host e ?s) = calls s @ [PreventDefault, OnPress (onPress h2)]"
    by simp
qed

theorem last_write_wins_witness:
  "hotkeys (emitAll [AddLayer (layerOf (hotkeyOn ''R'' 1)), AddLayer (layerOf (hotkeyOn ''R'' 2))]
              (initialState playing)) ''R'' = Some (Some (hotkeyOn ''R'' 2)) \<and>
   lastWritten ''R'' [AddLayer (layerOf (hotkeyOn ''R'' 1)), AddLayer (layerOf (hotkeyOn ''R'' 2))]
     = Some (Some (hotkeyOn ''R'' 2)) \<and>
   mostRecentlyRegistered ''R''
     [AddLayer (layerOf (hotkeyOn ''R'' 1)), AddLayer (layerOf (hotkeyOn ''R'' 2))]
     = Some (hotkeyOn ''R'' 2) \<and>
   calls (onkeydown asciiHost (press ''R'' True False)
            (addLayer (layerOf (hotkeyOn ''R'' 2))
               (addLayer (layerOf (hotkeyOn ''R'' 1)) (initialState playing))))
     = [PreventDefault, OnPress 2] \<and>
   hotkeys (addLayer (layerOf (hotkeyOn ''q'' 4))
              (addLayer (layerOf (hotkeyOn ''q'' 3)) (initialState playing))) ''q''
     = Some (Some (hotkeyOn ''q'' 4)) \<and>
   calls (onkeydown asciiHost (press ''q'' False False)
            (addLayer (layerOf (hotkeyOn ''q'' 4))
               (addLayer (layerOf (hotkeyOn ''q'' 3)) (initialState playing))))
     = [PreventDefault, OnPress 4]"
proof -
  let ?l1 = "layerOf (hotkeyOn ''R'' 1)"
  let ?l2 = "layerOf (hotkeyOn ''R'' 2)"
  let ?m1 = "layerOf (hotkeyOn ''q'' 3)"
  let ?m2 = "layerOf (hotkeyOn ''q'' 4)"
  let ?e = "press ''R'' True False"
  let ?eq = "press ''q'' False False"
  let ?s = "initialState playing :: (bool, nat) state"
  have w: "lastWritten ''R'' [AddLayer ?l1, AddLayer ?l2] = Some (Some (hotkeyOn ''R'' 2))"
    by (simp add: lastWritten_def)
  note hist = last_write_wins [where ns = "[AddLayer ?l1, AddLayer ?l2]" and g = playing
      and k = "''R''" and h = "hotkeyOn ''R'' 2"]
  from hist [THEN conjunct1] w
  have 1: "hotkeys (emitAll [AddLayer ?l1, AddLayer ?l2] ?s) ''R'' = Some (Some (hotkeyOn ''R'' 2))"
    by simp
  from hist [THEN conjunct2, THEN conjunct1] 1
  have 2: "mostRecentlyRegistered ''R'' [AddLayer ?l1, AddLayer ?l2] = Some (hotkeyOn ''R'' 2)"
    by simp
  have h: "find_js (rev (findFeatures ?l2 HotkeyType)) (hasKey ''R'') = Some (hotkeyOn ''R'' 2)"
    and hq: "find_js (rev (findFeatures ?m2 HotkeyType)) (hasKey ''q'') = Some (hotkeyOn ''q'' 4)"
    by (simp_all add: hasKey_def)
  have e: "key ?e = ''R''" "\<not> ctrlKey ?e" "target ?e \<noteq> Some ''INPUT''"
    and eq: "key ?eq = ''q''" "\<not> ctrlKey ?eq" "target ?eq \<noteq> Some ''INPUT''"
    by (simp_all add: press_def)
  have g: "\<not> (hasWon (game ?s) \<and> \<not> keepGoing (game ?s))"
    "unref (game ?s) (enabled (hotkeyOn ''R'' 2))" "unref (game ?s) (enabled (hotkeyOn ''q'' 4))"
    "calls ?s = []"
    by (simp_all add: initialState_def)
  from last_write_wins [where host = asciiHost and s = ?s and ?layer2.0 = ?l2
      and ?layer1.0 = ?l1 and k = "''R''" and e = ?e and ?h2.0 = "hotkeyOn ''R'' 2",
      THEN conjunct2, THEN conjunct2, rule_format, OF h] e g
  have 3: "calls (onkeydown asciiHost ?e (addLayer ?l2 (addLayer ?l1 ?s))) = [PreventDefault, OnPress 2]"
    by simp
  from last_write_wins [where host = asciiHost and s = ?s and ?layer2.0 = ?m2
      and ?layer1.0 = ?m1 and k = "''q''" and e = ?eq and ?h2.0 = "hotkeyOn ''q'' 4",
      THEN conjunct2, THEN conjunct2, rule_format, OF hq] eq g
  have 4: "hotkeys (addLayer ?m2 (addLayer ?m1 ?s)) ''q'' = Some (Some (hotkeyOn ''q'' 4))"
    and 5: "calls (onkeydown asciiHost ?eq (addLayer ?m2 (addLayer ?m1 ?s))) = [PreventDefault, OnPress 4]"
    by simp_all
  from 1 w 2 3 4 5 show ?thesis by blast
qed

end
